theory Spec2Isabelle
  imports Complex_Main "HOL-Library.AList"
begin

section \<open>Flood-risk dashboard: cluster interpretation and prediction (app.py)\<close>

subsection \<open>Values\<close>

text \<open>
  A Python float is either a finite number or one of the three special values. The
  arithmetic of finite floats is not modelled: only their order is used by the code below.
\<close>

datatype pyfloat = Finite real | PosInf | NegInf | NaN

fun isfinite :: "pyfloat \<Rightarrow> bool" where
  "isfinite (Finite _) = True"
| "isfinite _ = False"

text \<open>The comparison \<open><\<close> of floats: false as soon as one side is NaN.\<close>

fun float_lt :: "pyfloat \<Rightarrow> pyfloat \<Rightarrow> bool" where
  "float_lt (Finite a) (Finite b) = (a < b)"
| "float_lt (Finite _) PosInf = True"
| "float_lt NegInf (Finite _) = True"
| "float_lt NegInf PosInf = True"
| "float_lt _ _ = False"

text \<open>
  The exceptions of a run: those the script's own statements raise, and the ValueError
  with which the library's input validation refuses an array.
\<close>

datatype py_exception =
    NameError string
  | KeyError nat
  | IndexError nat
  | AttributeError string
  | ValueError

text \<open>
  A dict with integer keys, in insertion order: \<open>d[k] = v\<close> is \<^const>\<open>AList.update\<close>
  (replace in place when the key is there, append otherwise), \<open>d[k]\<close> raises KeyError
  when the key is missing.
\<close>

type_synonym 'a dict = "(nat \<times> 'a) list"

definition dict_getitem :: "'a dict \<Rightarrow> nat \<Rightarrow> py_exception + 'a" where
  "dict_getitem d k = (case map_of d k of None \<Rightarrow> Inl (KeyError k) | Some v \<Rightarrow> Inr v)"

definition list_getitem :: "'a list \<Rightarrow> nat \<Rightarrow> py_exception + 'a" where
  "list_getitem xs i = (if i < length xs then Inr (xs ! i) else Inl (IndexError i))"

text \<open>The decimal text of a non-negative integer, as an f-string prints it.\<close>

definition digit_char :: "nat \<Rightarrow> char" where
  "digit_char d = ''0123456789'' ! d"

fun str_nat :: "nat \<Rightarrow> string" where
  "str_nat n = (if n < 10 then [digit_char n] else str_nat (n div 10) @ [digit_char (n mod 10)])"

declare str_nat.simps [simp del]

subsection \<open>The external collaborators\<close>

text \<open>
  The fitted clustering model and the scaler are loaded from files; the script uses the
  attributes below. \<open>'v\<close> is the normalized feature space. The two calls that receive
  the user's input, \<open>scaler.transform\<close> and \<open>model.predict\<close>, either return or raise:
  the library validates the array it is given.
\<close>

record 'v kmeans =
  cluster_centers :: "'v list"
  predict :: "'v \<Rightarrow> py_exception + nat"

record 'v scaler =
  transform :: "pyfloat \<times> pyfloat \<Rightarrow> py_exception + 'v"
  inverse_transform :: "'v \<Rightarrow> pyfloat \<times> pyfloat"

text \<open>
  \<open>load_models\<close> returns the pair read from disk, or \<open>(None, None)\<close> when a file is
  missing (the only exception it catches). The argument is what is on disk.
\<close>

definition load_models :: "('v kmeans \<times> 'v scaler) option \<Rightarrow> 'v kmeans option \<times> 'v scaler option" where
  "load_models files = (case files of Some (m, s) \<Rightarrow> (Some m, Some s) | None \<Rightarrow> (None, None))"

subsection \<open>The centroid table\<close>

record center =
  Curah_Hujan :: pyfloat
  Elevasi :: pyfloat
  Cluster_Label :: nat

type_synonym dataframe = "center list"

text \<open>
  \<open>pd.DataFrame(centers_original, columns=[...])\<close> followed by
  \<open>df['Cluster_Label'] = range(len(df))\<close>.
\<close>

definition DataFrame :: "(pyfloat \<times> pyfloat) list \<Rightarrow> dataframe" where
  "DataFrame rows =
     map (\<lambda>(i, r). \<lparr>Curah_Hujan = fst r, Elevasi = snd r, Cluster_Label = i\<rparr>)
       (List.enumerate 0 rows)"

text \<open>
  \<open>df.sort_values(by='Elevasi').reset_index(drop=True)\<close>: pandas computes an indexer from
  the values of the one column and takes the rows in that order. The sorting routine is
  the library's (the call passes no \<open>kind\<close>), so it is a parameter \<open>argsort\<close>: from the
  column to the indexer. Taking a row that is not there raises.
\<close>

fun first_out_of_range :: "nat \<Rightarrow> nat list \<Rightarrow> nat option" where
  "first_out_of_range n [] = None"
| "first_out_of_range n (i # idx) = (if i < n then first_out_of_range n idx else Some i)"

definition sort_values_Elevasi ::
  "(pyfloat list \<Rightarrow> nat list) \<Rightarrow> dataframe \<Rightarrow> py_exception + dataframe" where
  "sort_values_Elevasi argsort df =
     (let indexer = argsort (map Elevasi df)
      in case first_out_of_range (length df) indexer of
           Some i \<Rightarrow> Inl (IndexError i)
         | None \<Rightarrow> Inr (map (\<lambda>i. df ! i) indexer))"

text \<open>
  What the library promises of the indexer: a permutation of the row numbers under which
  the column is ascending, missing values (NaN) last. Nothing is promised about the order
  of equal values.
\<close>

definition may_precede :: "pyfloat \<Rightarrow> pyfloat \<Rightarrow> bool" where
  "may_precede a b \<longleftrightarrow> b = NaN \<or> (a \<noteq> NaN \<and> \<not> float_lt b a)"

definition argsort_ok :: "(pyfloat list \<Rightarrow> nat list) \<Rightarrow> pyfloat list \<Rightarrow> bool" where
  "argsort_ok argsort ks \<longleftrightarrow>
     (let indexer = argsort ks
      in length indexer = length ks \<and> distinct indexer \<and>
         first_out_of_range (length ks) indexer = None \<and>
         sorted_wrt may_precede (map (\<lambda>i. ks ! i) indexer))"

subsection \<open>get_cluster_info\<close>

definition labels :: "string list" where
  "labels = [''Sangat Rawan (Bahaya)'', ''Waspada (Siaga)'', ''Aman'']"

definition color_codes :: "string list" where
  "color_codes = [''#FF4B4B'', ''#FFA500'', ''#28A745'']"

text \<open>
  \<open>df_sorted.loc[i, 'Cluster_Label']\<close> on the default index \<open>0..len-1\<close>.
\<close>

definition loc_Cluster_Label :: "dataframe \<Rightarrow> nat \<Rightarrow> py_exception + nat" where
  "loc_Cluster_Label df i =
     (if i < length df then Inr (Cluster_Label (df ! i)) else Inl (KeyError i))"

text \<open>
  The loop \<open>for i in range(len(df_sorted))\<close>, over the remaining values of \<open>i\<close>, with
  the two dicts as they stand.
\<close>

fun label_loop ::
  "dataframe \<Rightarrow> nat list \<Rightarrow> string dict \<times> string dict \<Rightarrow> py_exception + (string dict \<times> string dict)"
where
  "label_loop df_sorted [] acc = Inr acc"
| "label_loop df_sorted (i # rest) (risk_mapping, colors) =
     (case loc_Cluster_Label df_sorted i of
        Inl e \<Rightarrow> Inl e
      | Inr original_label \<Rightarrow>
          if i < length labels then
            (case list_getitem labels i of
               Inl e \<Rightarrow> Inl e
             | Inr l \<Rightarrow>
                 (case list_getitem color_codes i of
                    Inl e \<Rightarrow> Inl e
                  | Inr c \<Rightarrow>
                      label_loop df_sorted rest
                        (AList.update original_label l risk_mapping,
                         AList.update original_label c colors)))
          else
            label_loop df_sorted rest
              (AList.update original_label (''Level '' @ str_nat i) risk_mapping,
               AList.update original_label ''#808080'' colors))"

definition get_cluster_info ::
  "(pyfloat list \<Rightarrow> nat list) \<Rightarrow> 'v kmeans \<Rightarrow> 'v scaler
     \<Rightarrow> py_exception + (dataframe \<times> string dict \<times> string dict)" where
  "get_cluster_info argsort model scaler =
     (let centers_scaled = cluster_centers model;
          centers_original = map (inverse_transform scaler) centers_scaled;
          df_centers = DataFrame centers_original
      in case sort_values_Elevasi argsort df_centers of
           Inl e \<Rightarrow> Inl e
         | Inr df_sorted \<Rightarrow>
             (case label_loop df_sorted [0..<length df_sorted] ([], []) of
                Inl e \<Rightarrow> Inl e
              | Inr (risk_mapping, colors) \<Rightarrow> Inr (df_centers, risk_mapping, colors)))"

subsection \<open>The page\<close>

text \<open>
  The prediction block of the first tab: scale the input, predict, look the cluster up in
  both dicts. No test of the input comes before the calls, and no exception of the calls
  is caught.
\<close>

definition classify ::
  "'v kmeans \<Rightarrow> 'v scaler \<Rightarrow> string dict \<Rightarrow> string dict \<Rightarrow> pyfloat \<times> pyfloat
     \<Rightarrow> py_exception + (nat \<times> string \<times> string)" where
  "classify model scaler risk_map color_map input_data =
     (case transform scaler input_data of
        Inl e \<Rightarrow> Inl e
      | Inr input_scaled \<Rightarrow>
          (case predict model input_scaled of
             Inl e \<Rightarrow> Inl e
           | Inr prediction \<Rightarrow>
               (case dict_getitem risk_map prediction of
                  Inl e \<Rightarrow> Inl e
                | Inr result_text \<Rightarrow>
                    (case dict_getitem color_map prediction of
                       Inl e \<Rightarrow> Inl e
                     | Inr result_color \<Rightarrow> Inr (prediction, result_text, result_color)))))"

text \<open>
  The centroid traces of the chart, one per row of \<open>df_centers\<close>: position, marker color
  and legend name.
\<close>

fun centroid_traces ::
  "dataframe \<Rightarrow> string dict \<Rightarrow> string dict
     \<Rightarrow> py_exception + (pyfloat \<times> pyfloat \<times> string \<times> string) list" where
  "centroid_traces [] risk_map color_map = Inr []"
| "centroid_traces (row # rows) risk_map color_map =
     (let cluster_id = Cluster_Label row
      in case dict_getitem color_map cluster_id of
           Inl e \<Rightarrow> Inl e
         | Inr color \<Rightarrow>
             (case dict_getitem risk_map cluster_id of
                Inl e \<Rightarrow> Inl e
              | Inr name \<Rightarrow>
                  (case centroid_traces rows risk_map color_map of
                     Inl e \<Rightarrow> Inl e
                   | Inr traces \<Rightarrow>
                       Inr ((Curah_Hujan row, Elevasi row, color, ''Pusat '' @ name) # traces))))"

text \<open>
  The module-level names \<open>df_centers\<close>, \<open>risk_map\<close> and \<open>color_map\<close> are bound together
  by one assignment, or not at all: \<open>bound\<close> is \<open>None\<close> when the assignment did not run.
\<close>

type_synonym cluster_info = "dataframe \<times> string dict \<times> string dict"

definition tab1 ::
  "'v kmeans option \<Rightarrow> 'v scaler option \<Rightarrow> cluster_info option \<Rightarrow> pyfloat \<times> pyfloat
     \<Rightarrow> py_exception +
        ((nat \<times> string \<times> string) \<times> (pyfloat \<times> pyfloat \<times> string \<times> string) list) option" where
  "tab1 model scaler bound input_data =
     (case model of
        None \<Rightarrow> Inr None
      | Some m \<Rightarrow>
          (case scaler of
             None \<Rightarrow> Inl (AttributeError ''transform'')
           | Some s \<Rightarrow>
               (case bound of
                  None \<Rightarrow> Inl (NameError ''risk_map'')
                | Some (df_centers, risk_map, color_map) \<Rightarrow>
                    (case classify m s risk_map color_map input_data of
                       Inl e \<Rightarrow> Inl e
                     | Inr result \<Rightarrow>
                         (case centroid_traces df_centers risk_map color_map of
                            Inl e \<Rightarrow> Inl e
                          | Inr traces \<Rightarrow> Inr (Some (result, traces)))))))"

text \<open>
  The second tab: the table of \<open>df_centers\<close> with the column
  \<open>df['Cluster_Label'].map(risk_map)\<close> (a missing key gives a missing value, not an error).
\<close>

definition tab2 ::
  "cluster_info option \<Rightarrow> py_exception + (string option \<times> pyfloat \<times> pyfloat) list" where
  "tab2 bound =
     (case bound of
        None \<Rightarrow> Inl (NameError ''df_centers'')
      | Some (df_centers, risk_map, color_map) \<Rightarrow>
          Inr (map (\<lambda>row. (map_of risk_map (Cluster_Label row), Curah_Hujan row, Elevasi row))
                 df_centers))"

text \<open>One run of the script: load, interpret the clusters, render both tabs.\<close>

definition app ::
  "(pyfloat list \<Rightarrow> nat list) \<Rightarrow> ('v kmeans \<times> 'v scaler) option \<Rightarrow> pyfloat \<times> pyfloat
     \<Rightarrow> py_exception +
        (((nat \<times> string \<times> string) \<times> (pyfloat \<times> pyfloat \<times> string \<times> string) list) option
         \<times> (string option \<times> pyfloat \<times> pyfloat) list)" where
  "app argsort files input_data =
     (let (model, scaler) = load_models files
      in case (case model of
                 None \<Rightarrow> Inr None
               | Some m \<Rightarrow>
                   (case scaler of
                      None \<Rightarrow> Inl (AttributeError ''inverse_transform'')
                    | Some s \<Rightarrow>
                        (case get_cluster_info argsort m s of
                           Inl e \<Rightarrow> Inl e
                         | Inr info \<Rightarrow> Inr (Some info)))) of
           Inl e \<Rightarrow> Inl e
         | Inr bound \<Rightarrow>
             (case tab1 model scaler bound input_data of
                Inl e \<Rightarrow> Inl e
              | Inr out1 \<Rightarrow>
                  (case tab2 bound of
                     Inl e \<Rightarrow> Inl e
                   | Inr out2 \<Rightarrow> Inr (out1, out2))))"

subsection \<open>Two sorting routines\<close>

text \<open>
  Two routines that both meet the library's promise. The first is an insertion sort that
  keeps equal values in their original order. The second is not stable: it first
  exchanges the rows at mirrored positions when they are strictly out of order, then
  finishes by the same insertion. It moves rows only when they are strictly out of
  order: on the fixtures below it leaves three equal values as they are and returns the
  rows 3, 2, 1, 0 for the column 2, 2, 0, 0.
\<close>

fun insert_stable :: "pyfloat list \<Rightarrow> nat \<Rightarrow> nat list \<Rightarrow> nat list" where
  "insert_stable ks i [] = [i]"
| "insert_stable ks i (j # js) =
     (if may_precede (ks ! j) (ks ! i) then j # insert_stable ks i js else i # j # js)"

definition stable_argsort :: "pyfloat list \<Rightarrow> nat list" where
  "stable_argsort ks = foldl (\<lambda>acc i. insert_stable ks i acc) [] [0..<length ks]"

definition exchange :: "pyfloat list \<Rightarrow> nat \<Rightarrow> nat \<Rightarrow> nat list \<Rightarrow> nat list" where
  "exchange ks p q idx =
     (if float_lt (ks ! (idx ! q)) (ks ! (idx ! p)) then idx[p := idx ! q, q := idx ! p]
      else idx)"

definition mirror_pass :: "pyfloat list \<Rightarrow> nat list \<Rightarrow> nat list" where
  "mirror_pass ks idx =
     foldl (\<lambda>acc p. exchange ks p (length ks - 1 - p) acc) idx [0..<length ks div 2]"

definition mirror_argsort :: "pyfloat list \<Rightarrow> nat list" where
  "mirror_argsort ks =
     foldl (\<lambda>acc i. insert_stable ks i acc) [] (mirror_pass ks [0..<length ks])"

text \<open>
  An indexer keeps the ties of a column when rows of equal value come out in their
  original order.
\<close>

definition keeps_ties :: "(pyfloat list \<Rightarrow> nat list) \<Rightarrow> pyfloat list \<Rightarrow> bool" where
  "keeps_ties argsort ks \<longleftrightarrow> sorted_wrt (\<lambda>i j. ks ! i = ks ! j \<longrightarrow> i < j) (argsort ks)"

text \<open>
  The indexers that a sort can reach when all it does is exchange two rows that are
  strictly out of order (as an insertion sort or a sorting network does): it starts from
  the rows as they are, and each step swaps the rows at two positions \<open>p < q\<close> when the
  value at \<open>q\<close> is strictly less than the value at \<open>p\<close>.
\<close>

inductive by_exchanges :: "pyfloat list \<Rightarrow> nat list \<Rightarrow> bool" for ks :: "pyfloat list" where
  no_exchange: "by_exchanges ks [0..<length ks]"
| exchange_step:
    "by_exchanges ks idx \<Longrightarrow> p < q \<Longrightarrow> q < length idx \<Longrightarrow>
     float_lt (ks ! (idx ! q)) (ks ! (idx ! p)) \<Longrightarrow>
     by_exchanges ks (idx[p := idx ! q, q := idx ! p])"

subsection \<open>Notions used to state the properties\<close>

text \<open>The elevation column of the centroid table, in cluster-id order.\<close>

definition centroid_elevations :: "'v kmeans \<Rightarrow> 'v scaler \<Rightarrow> pyfloat list" where
  "centroid_elevations model scaler =
     map (\<lambda>v. snd (inverse_transform scaler v)) (cluster_centers model)"

text \<open>What the loop body stores at sorted position \<open>i\<close>.\<close>

definition risk_label :: "nat \<Rightarrow> string" where
  "risk_label i = (if i < length labels then labels ! i else ''Level '' @ str_nat i)"

definition risk_color :: "nat \<Rightarrow> string" where
  "risk_color i = (if i < length labels then color_codes ! i else ''#808080'')"

text \<open>
  The rank of a category, following the specification's data model: rank 0 is the most
  severe category of the fixed scale, and a fallback category is labelled by its rank.
  The script itself stores names and colors only.
\<close>

definition parse_nat :: "string \<Rightarrow> nat" where
  "parse_nat s = foldl (\<lambda>acc c. 10 * acc + (of_char c - 48)) 0 s"

definition rank_of :: "string \<Rightarrow> nat" where
  "rank_of l =
     (if l = ''Sangat Rawan (Bahaya)'' then 0
      else if l = ''Waspada (Siaga)'' then 1
      else if l = ''Aman'' then 2
      else parse_nat (drop 6 l))"




text \<open>
  A fixture: three centroids at elevations 40, 2 and 5 mdpl (cluster ids 0, 1, 2), a
  scaler of mean 0 and scale 1, and a model that predicts from the elevation by
  thresholds halfway between the centroids. Both validate their input as the library
  does: the scaler lets NaN through and raises on an infinity, the model raises on
  every value that is not finite.
\<close>

definition scenario_model :: "(pyfloat \<times> pyfloat) kmeans" where
  "scenario_model =
     \<lparr>cluster_centers =
        [(Finite 100, Finite 40), (Finite 300, Finite 2), (Finite 200, Finite 5)],
      predict = (\<lambda>v. if isfinite (fst v) \<and> isfinite (snd v)
                      then Inr (if float_lt (snd v) (Finite 3.5) then 1
                                else if float_lt (snd v) (Finite 22.5) then 2 else 0)
                      else Inl ValueError)\<rparr>"

definition scenario_scaler :: "(pyfloat \<times> pyfloat) scaler" where
  "scenario_scaler =
     \<lparr>transform = (\<lambda>x. if fst x = PosInf \<or> fst x = NegInf \<or> snd x = PosInf \<or> snd x = NegInf
                        then Inl ValueError else Inr x),
      inverse_transform = (\<lambda>v. v)\<rparr>"

text \<open>
  Four centroids at elevations 2, 2, 0, 0; three centroids at one elevation; five
  centroids.
\<close>

definition tied_model :: "(pyfloat \<times> pyfloat) kmeans" where
  "tied_model =
     \<lparr>cluster_centers =
        [(Finite 100, Finite 2), (Finite 300, Finite 2), (Finite 200, Finite 0),
         (Finite 250, Finite 0)],
      predict = (\<lambda>v. Inr 0)\<rparr>"

definition level_model :: "(pyfloat \<times> pyfloat) kmeans" where
  "level_model =
     \<lparr>cluster_centers = [(Finite 100, Finite 5), (Finite 300, Finite 5), (Finite 200, Finite 5)],
      predict = (\<lambda>v. Inr 0)\<rparr>"

definition five_model :: "(pyfloat \<times> pyfloat) kmeans" where
  "five_model =
     \<lparr>cluster_centers =
        [(Finite 100, Finite 40), (Finite 300, Finite 2), (Finite 200, Finite 5),
         (Finite 150, Finite 60), (Finite 120, Finite 50)],
      predict = (\<lambda>v. Inr 0)\<rparr>"

text \<open>The first fixture with other rainfall values at the same elevations.\<close>

definition scenario_model_dry :: "(pyfloat \<times> pyfloat) kmeans" where
  "scenario_model_dry =
     \<lparr>cluster_centers = [(Finite 0, Finite 40), (Finite 10, Finite 2), (Finite 599, Finite 5)],
      predict = (\<lambda>v. Inr 0)\<rparr>"

section \<open>Basic facts\<close>

lemma float_lt_irrefl: "\<not> float_lt a a"
  by (cases a) simp_all

lemma float_lt_not_NaN: "float_lt a b \<Longrightarrow> a \<noteq> NaN \<and> b \<noteq> NaN"
  by (cases a; cases b) simp_all

lemma may_precede_refl: "may_precede a a"
  by (simp add: may_precede_def float_lt_irrefl)

lemma may_precede_total: "may_precede a b \<or> may_precede b a"
  by (cases a; cases b) (auto simp: may_precede_def)

lemma may_precede_trans: "may_precede a b \<Longrightarrow> may_precede b c \<Longrightarrow> may_precede a c"
  by (cases a; cases b; cases c) (auto simp: may_precede_def)

lemma update_fresh: "k \<notin> fst ` set al \<Longrightarrow> AList.update k v al = al @ [(k, v)]"
  by (induction al) auto

lemma first_out_of_range_None: "first_out_of_range n idx = None \<longleftrightarrow> (\<forall>i\<in>set idx. i < n)"
  by (induction idx) auto

lemma length_DataFrame: "length (DataFrame rows) = length rows"
  by (simp add: DataFrame_def)

lemma nth_DataFrame:
  "i < length rows \<Longrightarrow>
     DataFrame rows ! i = \<lparr>Curah_Hujan = fst (rows ! i), Elevasi = snd (rows ! i), Cluster_Label = i\<rparr>"
  by (simp add: DataFrame_def nth_enumerate_eq)

lemma Elevasi_DataFrame: "map Elevasi (DataFrame rows) = map snd rows"
  by (rule nth_equalityI) (simp_all add: length_DataFrame nth_DataFrame)


lemma label_loop_append:
  assumes "\<forall>i\<in>set ps. i < length df"
    and "distinct (map (\<lambda>i. Cluster_Label (df ! i)) ps)"
    and "(\<lambda>i. Cluster_Label (df ! i)) ` set ps \<inter> fst ` set rm = {}"
    and "(\<lambda>i. Cluster_Label (df ! i)) ` set ps \<inter> fst ` set cm = {}"
  shows "label_loop df ps (rm, cm) =
           Inr (rm @ map (\<lambda>i. (Cluster_Label (df ! i), risk_label i)) ps,
                cm @ map (\<lambda>i. (Cluster_Label (df ! i), risk_color i)) ps)"
  using assms
proof (induction ps arbitrary: rm cm)
  case Nil
  then show ?case by simp
next
  case (Cons p ps)
  let ?k = "Cluster_Label (df ! p)"
  have fresh: "?k \<notin> fst ` set rm" "?k \<notin> fst ` set cm"
    using Cons.prems(3,4) by auto
  have p: "p < length df" using Cons.prems(1) by simp
  have rest: "\<forall>i\<in>set ps. i < length df" "distinct (map (\<lambda>i. Cluster_Label (df ! i)) ps)"
    using Cons.prems(1,2) by simp_all
  have notin: "?k \<notin> (\<lambda>i. Cluster_Label (df ! i)) ` set ps"
    using Cons.prems(2) by auto
  have d1: "(\<lambda>i. Cluster_Label (df ! i)) ` set ps \<inter> fst ` set (rm @ [(?k, v)]) = {}" for v
    using Cons.prems(3) notin by auto
  have d2: "(\<lambda>i. Cluster_Label (df ! i)) ` set ps \<inter> fst ` set (cm @ [(?k, v)]) = {}" for v
    using Cons.prems(4) notin by auto
  show ?case
  proof (cases "p < length labels")
    case True
    then have pc: "p < length color_codes" by (simp add: labels_def color_codes_def)
    show ?thesis
      using True pc p fresh Cons.IH [OF rest d1 d2]
      by (simp add: loc_Cluster_Label_def list_getitem_def update_fresh risk_label_def risk_color_def)
  next
    case False
    show ?thesis
      using False p fresh Cons.IH [OF rest d1 d2]
      by (simp add: loc_Cluster_Label_def update_fresh risk_label_def risk_color_def)
  qed
qed

lemma indexer_set:
  assumes "length idx = n" "distinct idx" "\<forall>i\<in>set idx. i < n"
  shows "set idx = {0..<n}"
proof -
  have "card (set idx) = n" using assms(1,2) by (simp add: distinct_card)
  moreover have "set idx \<subseteq> {0..<n}" using assms(3) by auto
  ultimately show ?thesis by (simp add: card_subset_eq)
qed

lemma argsort_okD:
  assumes "argsort_ok argsort ks"
  shows "length (argsort ks) = length ks" "distinct (argsort ks)"
    "\<forall>i\<in>set (argsort ks). i < length ks" "set (argsort ks) = {0..<length ks}"
    "sorted_wrt may_precede (map (\<lambda>i. ks ! i) (argsort ks))"
proof -
  show l: "length (argsort ks) = length ks" and d: "distinct (argsort ks)"
    and s: "sorted_wrt may_precede (map (\<lambda>i. ks ! i) (argsort ks))"
    using assms by (simp_all add: argsort_ok_def Let_def)
  show r: "\<forall>i\<in>set (argsort ks). i < length ks"
    using assms by (simp add: argsort_ok_def Let_def first_out_of_range_None)
  show "set (argsort ks) = {0..<length ks}"
    using indexer_set [OF l d r] .
qed

lemma centroid_elevations_eq:
  "centroid_elevations model scaler =
     map Elevasi (DataFrame (map (inverse_transform scaler) (cluster_centers model)))"
  by (simp add: centroid_elevations_def Elevasi_DataFrame)

lemma length_centroid_elevations:
  "length (centroid_elevations model scaler) = length (cluster_centers model)"
  by (simp add: centroid_elevations_def)

lemma get_cluster_info_eq:
  assumes ok: "argsort_ok argsort (centroid_elevations model scaler)"
  shows "get_cluster_info argsort model scaler =
           Inr (DataFrame (map (inverse_transform scaler) (cluster_centers model)),
                map (\<lambda>p. (argsort (centroid_elevations model scaler) ! p, risk_label p))
                  [0..<length (cluster_centers model)],
                map (\<lambda>p. (argsort (centroid_elevations model scaler) ! p, risk_color p))
                  [0..<length (cluster_centers model)])"
proof -
  let ?rows = "map (inverse_transform scaler) (cluster_centers model)"
  let ?df = "DataFrame ?rows"
  let ?ks = "centroid_elevations model scaler"
  let ?idx = "argsort ?ks"
  let ?n = "length (cluster_centers model)"
  let ?sorted = "map (\<lambda>i. ?df ! i) ?idx"
  note D = argsort_okD [OF ok]
  have n: "length ?ks = ?n" by (rule length_centroid_elevations)
  have ks: "map Elevasi ?df = ?ks" by (simp add: centroid_elevations_eq)
  have len_df: "length ?df = ?n" by (simp add: length_DataFrame)
  have inr: "\<forall>i\<in>set ?idx. i < ?n" using D(3) n by simp
  have sv: "sort_values_Elevasi argsort ?df = Inr ?sorted"
    using inr by (simp add: sort_values_Elevasi_def ks len_df Let_def first_out_of_range_None [THEN iffD2])
  have len_sorted: "length ?sorted = ?n" using D(1) n by simp
  have lab0: "Cluster_Label (?df ! (?idx ! p)) = ?idx ! p" if "p < ?n" for p
  proof -
    have "?idx ! p \<in> set ?idx" using that D(1) n by simp
    then have "?idx ! p < length ?rows" using inr by simp
    then show ?thesis by (simp add: nth_DataFrame)
  qed
  have lab: "Cluster_Label (?sorted ! p) = ?idx ! p" if "p < ?n" for p
    using that lab0 [OF that] D(1) n by simp
  have keys: "map (\<lambda>i. Cluster_Label (?sorted ! i)) [0..<?n] = ?idx"
    by (rule nth_equalityI) (simp_all add: D(1) n lab0)
  have loop: "label_loop ?sorted [0..<?n] ([], []) =
      Inr ([] @ map (\<lambda>i. (Cluster_Label (?sorted ! i), risk_label i)) [0..<?n],
           [] @ map (\<lambda>i. (Cluster_Label (?sorted ! i), risk_color i)) [0..<?n])"
  proof (rule label_loop_append)
    show "\<forall>i\<in>set [0..<?n]. i < length ?sorted" using len_sorted by simp
    show "distinct (map (\<lambda>i. Cluster_Label (?sorted ! i)) [0..<?n])"
      using keys D(2) by simp
  qed simp_all
  have m1: "map (\<lambda>i. (Cluster_Label (?sorted ! i), risk_label i)) [0..<?n] =
            map (\<lambda>p. (?idx ! p, risk_label p)) [0..<?n]"
    by (rule map_cong) (simp_all add: lab)
  have m2: "map (\<lambda>i. (Cluster_Label (?sorted ! i), risk_color i)) [0..<?n] =
            map (\<lambda>p. (?idx ! p, risk_color p)) [0..<?n]"
    by (rule map_cong) (simp_all add: lab)
  show ?thesis
    unfolding get_cluster_info_def Let_def sv sum.case len_sorted loop m1 m2 append_Nil
    by simp
qed

lemma position_order:
  assumes ok: "argsort_ok argsort ks"
    and a: "a < length ks" and b: "b < length ks"
    and lt: "float_lt (ks ! a) (ks ! b)"
  shows "\<exists>pa pb. pa < pb \<and> pb < length ks \<and> argsort ks ! pa = a \<and> argsort ks ! pb = b"
proof -
  note D = argsort_okD [OF ok]
  from a D(4) have "a \<in> set (argsort ks)" by simp
  then obtain pa where pa: "pa < length ks" "argsort ks ! pa = a"
    using D(1) by (auto simp: in_set_conv_nth)
  from b D(4) have "b \<in> set (argsort ks)" by simp
  then obtain pb where pb: "pb < length ks" "argsort ks ! pb = b"
    using D(1) by (auto simp: in_set_conv_nth)
  have "a \<noteq> b" using lt float_lt_irrefl by auto
  then have ne: "pa \<noteq> pb" using pa pb by auto
  have "\<not> pb < pa"
  proof
    assume "pb < pa"
    then have "may_precede (map (\<lambda>i. ks ! i) (argsort ks) ! pb) (map (\<lambda>i. ks ! i) (argsort ks) ! pa)"
      using D(5) pa(1) D(1) by (simp add: sorted_wrt_iff_nth_less)
    then have "may_precede (ks ! b) (ks ! a)"
      using pa pb D(1) by simp
    then show False
      using lt float_lt_not_NaN [OF lt] by (simp add: may_precede_def)
  qed
  with ne have "pa < pb" by simp
  with pa pb show ?thesis by blast
qed

lemma map_of_positions:
  assumes "distinct idx" "p < length idx"
  shows "map_of (map (\<lambda>q. (idx ! q, f q)) [0..<length idx]) (idx ! p) = Some (f p)"
proof -
  have "distinct (map fst (map (\<lambda>q. (idx ! q, f q)) [0..<length idx]))"
  proof -
    have "map fst (map (\<lambda>q. (idx ! q, f q)) [0..<length idx]) = idx"
      by (rule nth_equalityI) simp_all
    then show ?thesis using assms(1) by simp
  qed
  moreover have "(idx ! p, f p) \<in> set (map (\<lambda>q. (idx ! q, f q)) [0..<length idx])"
    using assms(2) by auto
  ultimately show ?thesis by (rule map_of_is_SomeI)
qed

lemma keys_positions: "map fst (map (\<lambda>q. (idx ! q, f q)) [0..<length idx]) = idx"
  by (rule nth_equalityI) simp_all

lemma of_char_digit:
  assumes "d < 10"
  shows "(of_char (digit_char d) :: nat) = 48 + d"
proof -
  from assms have "d \<in> {0, 1, 2, 3, 4, 5, 6, 7, 8, 9}" by auto
  then show ?thesis by (auto simp: digit_char_def)
qed

lemma parse_nat_snoc: "parse_nat (s @ [c]) = 10 * parse_nat s + (of_char c - 48)"
  by (simp add: parse_nat_def)

lemma parse_str_nat: "parse_nat (str_nat n) = n"
proof (induction n rule: str_nat.induct)
  case (1 n)
  show ?case
  proof (cases "n < 10")
    case True
    then show ?thesis
      by (subst str_nat.simps) (simp add: parse_nat_def of_char_digit)
  next
    case False
    have "parse_nat (str_nat n) = 10 * parse_nat (str_nat (n div 10)) + (of_char (digit_char (n mod 10)) - 48)"
      using False by (subst str_nat.simps) (simp add: parse_nat_snoc)
    also have "\<dots> = 10 * (n div 10) + n mod 10"
      using "1.IH" [OF False] by (simp add: of_char_digit)
    also have "\<dots> = n" by simp
    finally show ?thesis .
  qed
qed

lemma rank_of_risk_label: "rank_of (risk_label p) = p"
proof (cases "p < 3")
  case True
  then consider "p = 0" | "p = 1" | "p = 2" by linarith
  then show ?thesis
    by cases (simp_all add: rank_of_def risk_label_def labels_def)
next
  case False
  then show ?thesis
    by (simp add: rank_of_def risk_label_def labels_def parse_str_nat)
qed

lemma set_insert_stable: "set (insert_stable ks i js) = insert i (set js)"
  by (induction js) auto

lemma length_insert_stable: "length (insert_stable ks i js) = Suc (length js)"
  by (induction js) auto

lemma distinct_insert_stable: "i \<notin> set js \<Longrightarrow> distinct js \<Longrightarrow> distinct (insert_stable ks i js)"
  by (induction js) (auto simp: set_insert_stable)

lemma sorted_insert_stable:
  "sorted_wrt (\<lambda>i j. may_precede (ks ! i) (ks ! j)) js \<Longrightarrow>
   sorted_wrt (\<lambda>i j. may_precede (ks ! i) (ks ! j)) (insert_stable ks i js)"
proof (induction js)
  case Nil
  then show ?case by simp
next
  case (Cons j js)
  show ?case
  proof (cases "may_precede (ks ! j) (ks ! i)")
    case True
    then show ?thesis using Cons by (auto simp: set_insert_stable)
  next
    case False
    then have ij: "may_precede (ks ! i) (ks ! j)" using may_precede_total by blast
    have "may_precede (ks ! i) (ks ! x)" if "x \<in> set js" for x
      using that Cons.prems ij may_precede_trans by auto
    then show ?thesis using False ij Cons.prems by auto
  qed
qed

lemma ties_insert_stable:
  assumes "sorted_wrt (\<lambda>i j. may_precede (ks ! i) (ks ! j)) js"
    and "sorted_wrt (\<lambda>i j. may_precede (ks ! j) (ks ! i) \<longrightarrow> i < j) js"
    and "\<forall>j\<in>set js. j < i"
  shows "sorted_wrt (\<lambda>i j. may_precede (ks ! j) (ks ! i) \<longrightarrow> i < j) (insert_stable ks i js)"
  using assms
proof (induction js)
  case Nil
  then show ?case by simp
next
  case (Cons j js)
  show ?case
  proof (cases "may_precede (ks ! j) (ks ! i)")
    case True
    then show ?thesis using Cons by (auto simp: set_insert_stable)
  next
    case False
    have "\<not> may_precede (ks ! x) (ks ! i)" if "x \<in> set js" for x
    proof
      assume "may_precede (ks ! x) (ks ! i)"
      moreover have "may_precede (ks ! j) (ks ! x)" using that Cons.prems(1) by auto
      ultimately show False using False may_precede_trans by blast
    qed
    then show ?thesis using False Cons.prems(2) by auto
  qed
qed

lemma stable_prefix:
  "let js = foldl (\<lambda>acc i. insert_stable ks i acc) [] [0..<k]
   in set js = {0..<k} \<and> length js = k \<and> distinct js \<and>
      sorted_wrt (\<lambda>i j. may_precede (ks ! i) (ks ! j)) js \<and>
      sorted_wrt (\<lambda>i j. may_precede (ks ! j) (ks ! i) \<longrightarrow> i < j) js"
proof (induction k)
  case 0
  then show ?case by simp
next
  case (Suc k)
  let ?js = "foldl (\<lambda>acc i. insert_stable ks i acc) [] [0..<k]"
  from Suc have IH: "set ?js = {0..<k}" "length ?js = k" "distinct ?js"
    "sorted_wrt (\<lambda>i j. may_precede (ks ! i) (ks ! j)) ?js"
    "sorted_wrt (\<lambda>i j. may_precede (ks ! j) (ks ! i) \<longrightarrow> i < j) ?js"
    by (simp_all add: Let_def)
  have step: "foldl (\<lambda>acc i. insert_stable ks i acc) [] [0..<Suc k] = insert_stable ks k ?js"
    by simp
  have "set (insert_stable ks k ?js) = {0..<Suc k}"
    using IH(1) by (auto simp: set_insert_stable)
  moreover have "length (insert_stable ks k ?js) = Suc k"
    using IH(2) by (simp add: length_insert_stable)
  moreover have "distinct (insert_stable ks k ?js)"
    using IH(1,3) by (simp add: distinct_insert_stable)
  moreover have "sorted_wrt (\<lambda>i j. may_precede (ks ! i) (ks ! j)) (insert_stable ks k ?js)"
    using IH(4) by (rule sorted_insert_stable)
  moreover have "sorted_wrt (\<lambda>i j. may_precede (ks ! j) (ks ! i) \<longrightarrow> i < j) (insert_stable ks k ?js)"
    using IH(4,5) IH(1) by (intro ties_insert_stable) simp_all
  ultimately show ?case unfolding step Let_def by blast
qed

lemma stable_argsort_ok: "argsort_ok stable_argsort ks"
proof -
  let ?js = "stable_argsort ks"
  from stable_prefix [of ks "length ks"]
  have P: "set ?js = {0..<length ks}" "length ?js = length ks" "distinct ?js"
    "sorted_wrt (\<lambda>i j. may_precede (ks ! i) (ks ! j)) ?js"
    by (simp_all add: Let_def stable_argsort_def)
  have "sorted_wrt may_precede (map (\<lambda>i. ks ! i) ?js)"
    using P(4) by (simp add: sorted_wrt_map)
  moreover have "first_out_of_range (length ks) ?js = None"
    using P(1) by (simp add: first_out_of_range_None)
  ultimately show ?thesis using P(2,3) by (simp add: argsort_ok_def Let_def)
qed

lemma dict_getitem_positions:
  assumes "distinct idx" "p < length idx"
  shows "dict_getitem (map (\<lambda>q. (idx ! q, f q)) [0..<length idx]) (idx ! p) = Inr (f p)"
  using map_of_positions [OF assms, of f] by (simp add: dict_getitem_def)

lemma scenario_elevations:
  "centroid_elevations scenario_model scenario_scaler = [Finite 40, Finite 2, Finite 5]"
  by (simp add: centroid_elevations_def scenario_model_def scenario_scaler_def)


lemma five_elevations:
  "centroid_elevations five_model scenario_scaler =
     [Finite 40, Finite 2, Finite 5, Finite 60, Finite 50]"
  by (simp add: centroid_elevations_def five_model_def scenario_scaler_def)

lemma five_indexer:
  "stable_argsort [Finite 40, Finite 2, Finite 5, Finite 60, Finite 50] = [1, 2, 0, 4, 3]"
  by (simp add: stable_argsort_def may_precede_def upt_rec)

lemma str_nat_3: "str_nat 3 = ''3''"
  by (subst str_nat.simps) (simp add: digit_char_def)

lemma str_nat_4: "str_nat 4 = ''4''"
  by (subst str_nat.simps) (simp add: digit_char_def)

lemma label_loop_cong:
  assumes "length d1 = length d2" "map Cluster_Label d1 = map Cluster_Label d2"
  shows "label_loop d1 ps acc = label_loop d2 ps acc"
proof -
  have loc: "loc_Cluster_Label d1 i = loc_Cluster_Label d2 i" for i
  proof (cases "i < length d1")
    case True
    then have "Cluster_Label (d1 ! i) = map Cluster_Label d1 ! i" by simp
    also have "\<dots> = Cluster_Label (d2 ! i)" using True assms by simp
    finally show ?thesis using True assms(1) by (simp add: loc_Cluster_Label_def)
  next
    case False
    then show ?thesis using assms(1) by (simp add: loc_Cluster_Label_def)
  qed
  show ?thesis
  proof (induction ps arbitrary: acc)
    case Nil
    then show ?case by simp
  next
    case (Cons p ps)
    obtain rm cm where acc: "acc = (rm, cm)" by (cases acc)
    show ?case
      unfolding acc label_loop.simps loc
      by (simp add: Cons.IH split: sum.splits)
  qed
qed

lemma Cluster_Label_take:
  assumes "\<forall>i\<in>set idx. i < length rows"
  shows "map Cluster_Label (map (\<lambda>i. DataFrame rows ! i) idx) = idx"
proof (rule nth_equalityI)
  show "length (map Cluster_Label (map (\<lambda>i. DataFrame rows ! i) idx)) = length idx" by simp
next
  fix p assume "p < length (map Cluster_Label (map (\<lambda>i. DataFrame rows ! i) idx))"
  then have p: "p < length idx" by simp
  then have "idx ! p < length rows" using assms by simp
  then show "map Cluster_Label (map (\<lambda>i. DataFrame rows ! i) idx) ! p = idx ! p"
    using p by (simp add: nth_DataFrame)
qed



section \<open>The risk assignment\<close>

text \<open>
  Claim C1. For every list of cluster centers (ids \<open>0..N-1\<close>, any \<open>N\<close>),
  \<open>get_cluster_info\<close> does not fail and returns a risk mapping with exactly one entry
  per cluster id: \<open>N\<close> entries, pairwise distinct keys, key set \<open>{0..<N}\<close>. The only
  assumption is that the library's sort returns an ascending permutation of the rows.
\<close>

theorem get_cluster_info_total:
  assumes "argsort_ok argsort (centroid_elevations model scaler)"
  shows "\<exists>df rm cm.
           get_cluster_info argsort model scaler = Inr (df, rm, cm) \<and>
           length rm = length (cluster_centers model) \<and>
           distinct (map fst rm) \<and>
           set (map fst rm) = {0..<length (cluster_centers model)}"
proof -
  note D = argsort_okD [OF assms]
  let ?idx = "argsort (centroid_elevations model scaler)"
  have n: "length ?idx = length (cluster_centers model)"
    using D(1) by (simp add: length_centroid_elevations)
  have keys: "map fst (map (\<lambda>p. (?idx ! p, risk_label p)) [0..<length (cluster_centers model)]) = ?idx"
    using keys_positions [of ?idx risk_label] n by simp
  let ?rm = "map (\<lambda>p. (?idx ! p, risk_label p)) [0..<length (cluster_centers model)]"
  have "length ?rm = length (cluster_centers model)" by simp
  moreover have "distinct (map fst ?rm)" unfolding keys using D(2) .
  moreover have "set (map fst ?rm) = {0..<length (cluster_centers model)}"
    unfolding keys using D(4) by (simp add: length_centroid_elevations)
  ultimately show ?thesis
    using get_cluster_info_eq [OF assms] by blast
qed

theorem get_cluster_info_total_witness:
  "argsort_ok stable_argsort (centroid_elevations scenario_model scenario_scaler) \<and>
   (\<exists>df rm cm.
      get_cluster_info stable_argsort scenario_model scenario_scaler = Inr (df, rm, cm) \<and>
      length rm = 3 \<and> distinct (map fst rm) \<and> set (map fst rm) = {0..<3})"
proof -
  have n: "length (cluster_centers scenario_model) = 3"
    by (simp add: scenario_model_def)
  show ?thesis
    using get_cluster_info_total [OF stable_argsort_ok, of scenario_model scenario_scaler]
      stable_argsort_ok [of "centroid_elevations scenario_model scenario_scaler"]
    unfolding n by blast
qed

text \<open>
  Claim C4. If center \<open>a\<close> has a strictly lower elevation than center \<open>b\<close>, the
  category stored for \<open>a\<close> has a strictly lower rank than the one stored for \<open>b\<close>.
\<close>

theorem rank_increases_with_elevation:
  assumes "argsort_ok argsort (centroid_elevations model scaler)"
    and "a < length (cluster_centers model)" and "b < length (cluster_centers model)"
    and "float_lt (centroid_elevations model scaler ! a) (centroid_elevations model scaler ! b)"
  shows "\<exists>df rm cm la lb.
           get_cluster_info argsort model scaler = Inr (df, rm, cm) \<and>
           dict_getitem rm a = Inr la \<and> dict_getitem rm b = Inr lb \<and>
           rank_of la < rank_of lb"
proof -
  let ?ks = "centroid_elevations model scaler"
  let ?idx = "argsort ?ks"
  let ?n = "length (cluster_centers model)"
  note D = argsort_okD [OF assms(1)]
  have n: "length ?idx = ?n" "length ?ks = ?n"
    using D(1) by (simp_all add: length_centroid_elevations)
  from position_order [OF assms(1) _ _ assms(4)] assms(2,3) n
  obtain pa pb where p: "pa < pb" "pb < ?n" "?idx ! pa = a" "?idx ! pb = b"
    by auto
  have ga: "dict_getitem (map (\<lambda>q. (?idx ! q, risk_label q)) [0..<?n]) a = Inr (risk_label pa)"
    using dict_getitem_positions [OF D(2), of pa risk_label] p n by simp
  have gb: "dict_getitem (map (\<lambda>q. (?idx ! q, risk_label q)) [0..<?n]) b = Inr (risk_label pb)"
    using dict_getitem_positions [OF D(2), of pb risk_label] p n by simp
  show ?thesis
    unfolding get_cluster_info_eq [OF assms(1)]
    using ga gb p(1) by (simp add: rank_of_risk_label)
qed

theorem rank_increases_with_elevation_witness:
  "argsort_ok stable_argsort (centroid_elevations scenario_model scenario_scaler) \<and>
   (1::nat) < length (cluster_centers scenario_model) \<and>
   (0::nat) < length (cluster_centers scenario_model) \<and>
   float_lt (centroid_elevations scenario_model scenario_scaler ! 1)
     (centroid_elevations scenario_model scenario_scaler ! 0) \<and>
   (\<exists>df rm cm la lb.
      get_cluster_info stable_argsort scenario_model scenario_scaler = Inr (df, rm, cm) \<and>
      dict_getitem rm 1 = Inr la \<and> dict_getitem rm 0 = Inr lb \<and> rank_of la < rank_of lb)"
proof -
  have h1: "(1::nat) < length (cluster_centers scenario_model)"
    and h0: "(0::nat) < length (cluster_centers scenario_model)"
    by (simp_all add: scenario_model_def)
  have h: "float_lt (centroid_elevations scenario_model scenario_scaler ! 1)
     (centroid_elevations scenario_model scenario_scaler ! 0)"
    by (simp add: scenario_elevations)
  show ?thesis
    using rank_increases_with_elevation [OF stable_argsort_ok h1 h0 h] stable_argsort_ok h1 h0 h
    by blast
qed

text \<open>
  Claim C5. With more than three centers, the center at sorted position \<open>p \<ge> 3\<close> is
  stored as \<open>Level p\<close> with the color \<open>#808080\<close>, and nothing fails; with five
  centers the two last positions are \<open>Level 3\<close> and \<open>Level 4\<close>.
\<close>

theorem fallback_levels:
  assumes "argsort_ok argsort (centroid_elevations model scaler)"
    and "3 \<le> p" and "p < length (cluster_centers model)"
  shows "\<exists>df rm cm.
           get_cluster_info argsort model scaler = Inr (df, rm, cm) \<and>
           dict_getitem rm (argsort (centroid_elevations model scaler) ! p)
             = Inr (''Level '' @ str_nat p) \<and>
           dict_getitem cm (argsort (centroid_elevations model scaler) ! p) = Inr ''#808080'' \<and>
           (length (cluster_centers model) = 5 \<longrightarrow>
              dict_getitem rm (argsort (centroid_elevations model scaler) ! 3) = Inr ''Level 3'' \<and>
              dict_getitem rm (argsort (centroid_elevations model scaler) ! 4) = Inr ''Level 4'')"
proof -
  let ?idx = "argsort (centroid_elevations model scaler)"
  let ?n = "length (cluster_centers model)"
  note D = argsort_okD [OF assms(1)]
  have n: "length ?idx = ?n"
    using D(1) by (simp add: length_centroid_elevations)
  have rm: "dict_getitem (map (\<lambda>q. (?idx ! q, risk_label q)) [0..<?n]) (?idx ! q) = Inr (risk_label q)"
    if "q < ?n" for q
    using dict_getitem_positions [OF D(2), of q risk_label] that n by simp
  have cm: "dict_getitem (map (\<lambda>q. (?idx ! q, risk_color q)) [0..<?n]) (?idx ! q) = Inr (risk_color q)"
    if "q < ?n" for q
    using dict_getitem_positions [OF D(2), of q risk_color] that n by simp
  have l: "risk_label p = ''Level '' @ str_nat p" "risk_color p = ''#808080''"
    using assms(2) by (simp_all add: risk_label_def risk_color_def labels_def)
  have l34: "risk_label 3 = ''Level 3''" "risk_label 4 = ''Level 4''"
    by (simp_all add: risk_label_def labels_def str_nat_3 str_nat_4)
  have "dict_getitem (map (\<lambda>q. (?idx ! q, risk_label q)) [0..<?n]) (?idx ! p) = Inr (''Level '' @ str_nat p)"
    using rm [OF assms(3)] l by simp
  moreover have "dict_getitem (map (\<lambda>q. (?idx ! q, risk_color q)) [0..<?n]) (?idx ! p) = Inr ''#808080''"
    using cm [OF assms(3)] l by simp
  moreover have "?n = 5 \<longrightarrow>
      dict_getitem (map (\<lambda>q. (?idx ! q, risk_label q)) [0..<?n]) (?idx ! 3) = Inr ''Level 3'' \<and>
      dict_getitem (map (\<lambda>q. (?idx ! q, risk_label q)) [0..<?n]) (?idx ! 4) = Inr ''Level 4''"
  proof (intro impI conjI)
    assume n5: "?n = 5"
    then have "3 < ?n" "4 < ?n" by simp_all
    then show "dict_getitem (map (\<lambda>q. (?idx ! q, risk_label q)) [0..<?n]) (?idx ! 3) = Inr ''Level 3''"
      and "dict_getitem (map (\<lambda>q. (?idx ! q, risk_label q)) [0..<?n]) (?idx ! 4) = Inr ''Level 4''"
      using rm l34 by presburger+
  qed
  ultimately show ?thesis
    using get_cluster_info_eq [OF assms(1)] by blast
qed

theorem fallback_levels_witness:
  "argsort_ok stable_argsort (centroid_elevations five_model scenario_scaler) \<and>
   (3::nat) \<le> 4 \<and> (4::nat) < length (cluster_centers five_model) \<and>
   (\<exists>df rm cm.
      get_cluster_info stable_argsort five_model scenario_scaler = Inr (df, rm, cm) \<and>
      dict_getitem rm 3 = Inr ''Level 4'' \<and> dict_getitem cm 3 = Inr ''#808080'' \<and>
      dict_getitem rm 4 = Inr ''Level 3'')"
proof -
  have n: "length (cluster_centers five_model) = 5"
    by (simp add: five_model_def)
  have h: "(3::nat) \<le> 4" "(4::nat) < length (cluster_centers five_model)"
    by (simp_all add: n)
  have i: "stable_argsort (centroid_elevations five_model scenario_scaler) ! 4 = 3"
    "stable_argsort (centroid_elevations five_model scenario_scaler) ! 3 = 4"
    by (simp_all add: five_elevations five_indexer)
  show ?thesis
    using fallback_levels [of stable_argsort five_model scenario_scaler 4, OF stable_argsort_ok h]
      stable_argsort_ok h
    unfolding i n str_nat_4 by auto
qed

text \<open>
  Claim C7. With exactly three centers of pairwise different elevations, the lowest one
  is stored as \<open>Sangat Rawan (Bahaya)\<close> / \<open>#FF4B4B\<close>, the middle one as
  \<open>Waspada (Siaga)\<close> / \<open>#FFA500\<close> and the highest one as \<open>Aman\<close> / \<open>#28A745\<close>,
  whichever cluster ids \<open>a\<close>, \<open>b\<close>, \<open>c\<close> they carry.
\<close>

theorem three_clusters_by_elevation:
  assumes "length (cluster_centers model) = 3"
    and "argsort_ok argsort (centroid_elevations model scaler)"
    and "a < 3" and "b < 3" and "c < 3"
    and "float_lt (centroid_elevations model scaler ! a) (centroid_elevations model scaler ! b)"
    and "float_lt (centroid_elevations model scaler ! b) (centroid_elevations model scaler ! c)"
  shows "\<exists>df rm cm.
           get_cluster_info argsort model scaler = Inr (df, rm, cm) \<and>
           dict_getitem rm a = Inr ''Sangat Rawan (Bahaya)'' \<and> dict_getitem cm a = Inr ''#FF4B4B'' \<and>
           dict_getitem rm b = Inr ''Waspada (Siaga)'' \<and> dict_getitem cm b = Inr ''#FFA500'' \<and>
           dict_getitem rm c = Inr ''Aman'' \<and> dict_getitem cm c = Inr ''#28A745''"
proof -
  let ?ks = "centroid_elevations model scaler"
  let ?idx = "argsort ?ks"
  note D = argsort_okD [OF assms(2)]
  have n: "length ?idx = 3" "length ?ks = 3"
    using D(1) assms(1) by (simp_all add: length_centroid_elevations)
  from position_order [OF assms(2) _ _ assms(6)] assms(3,4) n
  obtain pa pb where p1: "pa < pb" "pb < 3" "?idx ! pa = a" "?idx ! pb = b"
    by auto
  from position_order [OF assms(2) _ _ assms(7)] assms(4,5) n
  obtain pb' pc where p2: "pb' < pc" "pc < 3" "?idx ! pb' = b" "?idx ! pc = c"
    by auto
  have "?idx ! pb' = ?idx ! pb" using p1(4) p2(3) by simp
  moreover have "pb' < length ?idx" "pb < length ?idx" using p1 p2 n by simp_all
  ultimately have "pb' = pb"
    using nth_eq_iff_index_eq [OF D(2)] by blast
  with p1 p2 have pos: "pa = 0" "pb = 1" "pc = 2" by simp_all
  have rm: "dict_getitem (map (\<lambda>q. (?idx ! q, risk_label q)) [0..<3]) (?idx ! q) = Inr (risk_label q)"
    if "q < 3" for q
    using dict_getitem_positions [OF D(2), of q risk_label] that n by simp
  have cm: "dict_getitem (map (\<lambda>q. (?idx ! q, risk_color q)) [0..<3]) (?idx ! q) = Inr (risk_color q)"
    if "q < 3" for q
    using dict_getitem_positions [OF D(2), of q risk_color] that n by simp
  have vals: "risk_label 0 = ''Sangat Rawan (Bahaya)''" "risk_color 0 = ''#FF4B4B''"
    "risk_label 1 = ''Waspada (Siaga)''" "risk_color 1 = ''#FFA500''"
    "risk_label 2 = ''Aman''" "risk_color 2 = ''#28A745''"
    by (simp_all add: risk_label_def risk_color_def labels_def color_codes_def)
  have "dict_getitem (map (\<lambda>q. (?idx ! q, risk_label q)) [0..<3]) a = Inr ''Sangat Rawan (Bahaya)''"
    using rm [of 0] p1(3) pos vals by simp
  moreover have "dict_getitem (map (\<lambda>q. (?idx ! q, risk_color q)) [0..<3]) a = Inr ''#FF4B4B''"
    using cm [of 0] p1(3) pos vals by simp
  moreover have "dict_getitem (map (\<lambda>q. (?idx ! q, risk_label q)) [0..<3]) b = Inr ''Waspada (Siaga)''"
    using rm [of 1] p1(4) pos vals by simp
  moreover have "dict_getitem (map (\<lambda>q. (?idx ! q, risk_color q)) [0..<3]) b = Inr ''#FFA500''"
    using cm [of 1] p1(4) pos vals by simp
  moreover have "dict_getitem (map (\<lambda>q. (?idx ! q, risk_label q)) [0..<3]) c = Inr ''Aman''"
    using rm [of 2] p2(4) pos vals by simp
  moreover have "dict_getitem (map (\<lambda>q. (?idx ! q, risk_color q)) [0..<3]) c = Inr ''#28A745''"
    using cm [of 2] p2(4) pos vals by simp
  ultimately show ?thesis
    using get_cluster_info_eq [OF assms(2)] unfolding assms(1) by blast
qed

theorem three_clusters_by_elevation_witness:
  "length (cluster_centers scenario_model) = 3 \<and>
   argsort_ok stable_argsort (centroid_elevations scenario_model scenario_scaler) \<and>
   (1::nat) < 3 \<and> (2::nat) < 3 \<and> (0::nat) < 3 \<and>
   float_lt (centroid_elevations scenario_model scenario_scaler ! 1)
     (centroid_elevations scenario_model scenario_scaler ! 2) \<and>
   float_lt (centroid_elevations scenario_model scenario_scaler ! 2)
     (centroid_elevations scenario_model scenario_scaler ! 0) \<and>
   (\<exists>df rm cm.
      get_cluster_info stable_argsort scenario_model scenario_scaler = Inr (df, rm, cm) \<and>
      dict_getitem rm 1 = Inr ''Sangat Rawan (Bahaya)'' \<and> dict_getitem cm 1 = Inr ''#FF4B4B'' \<and>
      dict_getitem rm 2 = Inr ''Waspada (Siaga)'' \<and> dict_getitem cm 2 = Inr ''#FFA500'' \<and>
      dict_getitem rm 0 = Inr ''Aman'' \<and> dict_getitem cm 0 = Inr ''#28A745'')"
proof -
  have n: "length (cluster_centers scenario_model) = 3"
    by (simp add: scenario_model_def)
  have h: "(1::nat) < 3" "(2::nat) < 3" "(0::nat) < 3" by simp_all
  have lt: "float_lt (centroid_elevations scenario_model scenario_scaler ! 1)
     (centroid_elevations scenario_model scenario_scaler ! 2)"
    "float_lt (centroid_elevations scenario_model scenario_scaler ! 2)
     (centroid_elevations scenario_model scenario_scaler ! 0)"
    by (simp_all add: scenario_elevations)
  show ?thesis
    using three_clusters_by_elevation [OF n stable_argsort_ok h lt] n stable_argsort_ok h lt
    by blast
qed

section \<open>What the assignment depends on, and what is returned\<close>

text \<open>
  Claim C8. Two models whose centers agree on cluster id and elevation and differ in
  rainfall only get the same risk mapping and the same color mapping (and the same
  exception, should the sort misbehave).
\<close>

theorem rainfall_noninterference:
  assumes "centroid_elevations model1 scaler1 = centroid_elevations model2 scaler2"
  shows "map_sum id snd (get_cluster_info argsort model1 scaler1) =
         map_sum id snd (get_cluster_info argsort model2 scaler2)"
proof -
  let ?rows1 = "map (inverse_transform scaler1) (cluster_centers model1)"
  let ?rows2 = "map (inverse_transform scaler2) (cluster_centers model2)"
  let ?ks = "centroid_elevations model1 scaler1"
  let ?idx = "argsort ?ks"
  have e1: "map Elevasi (DataFrame ?rows1) = ?ks"
    by (simp add: centroid_elevations_eq)
  have e2: "map Elevasi (DataFrame ?rows2) = ?ks"
    using assms by (simp add: centroid_elevations_eq)
  have l1: "length (DataFrame ?rows1) = length ?ks"
    by (simp add: length_DataFrame length_centroid_elevations)
  have l2: "length (DataFrame ?rows2) = length ?ks"
    unfolding assms by (simp add: length_DataFrame length_centroid_elevations)
  show ?thesis
  proof (cases "first_out_of_range (length ?ks) ?idx")
    case (Some i)
    then show ?thesis
      by (simp add: get_cluster_info_def sort_values_Elevasi_def Let_def e1 e2 l1 l2)
  next
    case None
    then have inr: "\<forall>i\<in>set ?idx. i < length ?ks"
      by (simp add: first_out_of_range_None)
    have r1: "\<forall>i\<in>set ?idx. i < length ?rows1"
      using inr by (simp add: length_centroid_elevations)
    have r2: "\<forall>i\<in>set ?idx. i < length ?rows2"
      using inr unfolding assms by (simp add: length_centroid_elevations)
    have "label_loop (map (\<lambda>i. DataFrame ?rows1 ! i) ?idx) ps acc =
          label_loop (map (\<lambda>i. DataFrame ?rows2 ! i) ?idx) ps acc" for ps acc
    proof (rule label_loop_cong)
      show "length (map (\<lambda>i. DataFrame ?rows1 ! i) ?idx) = length (map (\<lambda>i. DataFrame ?rows2 ! i) ?idx)"
        by simp
      show "map Cluster_Label (map (\<lambda>i. DataFrame ?rows1 ! i) ?idx) =
            map Cluster_Label (map (\<lambda>i. DataFrame ?rows2 ! i) ?idx)"
        unfolding Cluster_Label_take [OF r1] Cluster_Label_take [OF r2] ..
    qed
    then show ?thesis
      using None
      by (simp add: get_cluster_info_def sort_values_Elevasi_def Let_def e1 e2 l1 l2
          split: sum.splits)
  qed
qed

theorem rainfall_noninterference_witness:
  "centroid_elevations scenario_model scenario_scaler =
     centroid_elevations scenario_model_dry scenario_scaler \<and>
   map fst (cluster_centers scenario_model) \<noteq> map fst (cluster_centers scenario_model_dry) \<and>
   map_sum id snd (get_cluster_info stable_argsort scenario_model scenario_scaler) =
   map_sum id snd (get_cluster_info stable_argsort scenario_model_dry scenario_scaler)"
proof -
  have h: "centroid_elevations scenario_model scenario_scaler =
     centroid_elevations scenario_model_dry scenario_scaler"
    by (simp add: centroid_elevations_def scenario_model_def scenario_model_dry_def
        scenario_scaler_def)
  have d: "map fst (cluster_centers scenario_model) \<noteq> map fst (cluster_centers scenario_model_dry)"
    by (simp add: scenario_model_def scenario_model_dry_def)
  show ?thesis
    using rainfall_noninterference [OF h, of stable_argsort] h d by blast
qed




section \<open>Facts about ties\<close>

lemma get_cluster_info_cong:
  assumes "map (inverse_transform scaler') (cluster_centers model')
             = map (inverse_transform scaler) (cluster_centers model)"
  shows "get_cluster_info argsort model' scaler' = get_cluster_info argsort model scaler"
  unfolding get_cluster_info_def Let_def assms ..

lemma stable_argsort_keeps_ties: "keeps_ties stable_argsort ks"
proof -
  from stable_prefix [of ks "length ks"]
  have "sorted_wrt (\<lambda>i j. may_precede (ks ! j) (ks ! i) \<longrightarrow> i < j) (stable_argsort ks)"
    by (simp add: Let_def stable_argsort_def)
  then have "sorted_wrt (\<lambda>i j. ks ! i = ks ! j \<longrightarrow> i < j) (stable_argsort ks)"
    by (rule sorted_wrt_mono_rel [rotated]) (simp add: may_precede_refl)
  then show ?thesis by (simp add: keeps_ties_def)
qed

lemma kept_ties_positions:
  assumes ok: "argsort_ok argsort ks" and kt: "keeps_ties argsort ks"
    and "a < b" "b < length ks" "ks ! a = ks ! b"
  shows "\<exists>pa pb. pa < pb \<and> pb < length ks \<and> argsort ks ! pa = a \<and> argsort ks ! pb = b"
proof -
  let ?js = "argsort ks"
  note D = argsort_okD [OF ok]
  from assms(3,4) D(4) have "a \<in> set ?js" "b \<in> set ?js" by simp_all
  then obtain pa pb where p: "pa < length ks" "?js ! pa = a" "pb < length ks" "?js ! pb = b"
    using D(1) by (auto simp: in_set_conv_nth)
  have "pa \<noteq> pb" using p assms(3) by auto
  moreover have "\<not> pb < pa"
  proof
    assume "pb < pa"
    then have "ks ! (?js ! pb) = ks ! (?js ! pa) \<longrightarrow> ?js ! pb < ?js ! pa"
      using kt p(1) D(1) by (simp add: keeps_ties_def sorted_wrt_iff_nth_less)
    then show False using p assms(3,5) by simp
  qed
  ultimately have "pa < pb" by simp
  with p show ?thesis by blast
qed

lemma kept_ties_all_equal:
  assumes ok: "argsort_ok argsort ks" and kt: "keeps_ties argsort ks"
    and eq: "\<forall>e\<in>set ks. e = e0"
  shows "argsort ks = [0..<length ks]"
proof -
  let ?js = "argsort ks"
  note D = argsort_okD [OF ok]
  have T: "sorted_wrt (\<lambda>i j. ks ! i = ks ! j \<longrightarrow> i < j) ?js"
    using kt by (simp add: keeps_ties_def)
  have st: "sorted_wrt (<) ?js"
  proof (rule sorted_wrt_mono_rel [OF _ T])
    fix i j assume "i \<in> set ?js" "j \<in> set ?js" "ks ! i = ks ! j \<longrightarrow> i < j"
    moreover from this D(4) eq have "ks ! i = e0" "ks ! j = e0" by simp_all
    ultimately show "i < j" by simp
  qed
  have up: "sorted_wrt (<) [0..<length ks]" by (simp add: strict_sorted_iff)
  have "set ?js = set [0..<length ks]" using D(4) by simp
  with up st show ?thesis by (rule strict_sorted_equal)
qed

lemma by_exchanges_all_equal:
  assumes eq: "\<forall>e\<in>set ks. e = e0" and ex: "by_exchanges ks idx"
  shows "idx = [0..<length ks]"
  using ex
proof (induction rule: by_exchanges.induct)
  case no_exchange
  show ?case ..
next
  case (exchange_step idx p q)
  from exchange_step.IH exchange_step.hyps(2,3)
  have "idx ! q = q" "idx ! p = p" "q < length ks" "p < length ks" by simp_all
  with eq have "ks ! (idx ! q) = e0" "ks ! (idx ! p) = e0" by simp_all
  with exchange_step.hyps(4) show ?case by (simp add: float_lt_irrefl)
qed

lemma tied_elevations:
  "centroid_elevations tied_model scenario_scaler = [Finite 2, Finite 2, Finite 0, Finite 0]"
  by (simp add: centroid_elevations_def tied_model_def scenario_scaler_def)

lemma tied_mirror_indexer:
  "mirror_argsort [Finite 2, Finite 2, Finite 0, Finite 0] = [3, 2, 1, 0]"
  by (simp add: mirror_argsort_def mirror_pass_def exchange_def may_precede_def upt_rec)

lemma tied_mirror_ok:
  "argsort_ok mirror_argsort [Finite 2, Finite 2, Finite 0, Finite 0]"
  by (simp add: argsort_ok_def tied_mirror_indexer may_precede_def)

lemma level_elevations:
  "centroid_elevations level_model scenario_scaler = [Finite 5, Finite 5, Finite 5]"
  by (simp add: centroid_elevations_def level_model_def scenario_scaler_def)

lemma level_mirror_indexer: "mirror_argsort [Finite 5, Finite 5, Finite 5] = [0, 1, 2]"
  by (simp add: mirror_argsort_def mirror_pass_def exchange_def may_precede_def upt_rec)

lemma level_mirror_ok: "argsort_ok mirror_argsort [Finite 5, Finite 5, Finite 5]"
  by (simp add: argsort_ok_def level_mirror_indexer may_precede_def)

lemma level_mirror_by_exchanges:
  "by_exchanges [Finite 5, Finite 5, Finite 5] (mirror_argsort [Finite 5, Finite 5, Finite 5])"
proof -
  have u: "[0..<length [Finite 5, Finite 5, Finite 5 :: pyfloat]] = [0, 1, 2]"
    by (simp add: upt_rec)
  show ?thesis
    using no_exchange [of "[Finite 5, Finite 5, Finite 5]"]
    unfolding u level_mirror_indexer .
qed

lemma tied_mirror_by_exchanges:
  "by_exchanges [Finite 2, Finite 2, Finite 0, Finite 0] [3, 2, 1, 0]"
proof -
  let ?ks = "[Finite 2, Finite 2, Finite 0, Finite 0]"
  have u: "[0..<length ?ks] = [0, 1, 2, 3]" by (simp add: upt_rec)
  have s0: "by_exchanges ?ks [0, 1, 2, 3]"
    using no_exchange [of ?ks] unfolding u .
  have e1: "[0, 1, 2, 3 :: nat][0 := [0, 1, 2, 3] ! 3, 3 := [0, 1, 2, 3] ! 0] = [3, 1, 2, 0]"
    by simp
  have s1: "by_exchanges ?ks [3, 1, 2, 0]"
    using exchange_step [OF s0, of 0 3] unfolding e1 by simp
  have e2: "[3, 1, 2, 0 :: nat][1 := [3, 1, 2, 0] ! 2, 2 := [3, 1, 2, 0] ! 1] = [3, 2, 1, 0]"
    by simp
  show ?thesis
    using exchange_step [OF s1, of 1 2] unfolding e2 by simp
qed

section \<open>Lookups, ties, validation and the missing model\<close>

text \<open>
  Claim C10. The risk mapping and the color mapping have the same keys, \<open>{0..<N}\<close>, so
  both lookups of the prediction block succeed for every cluster id below \<open>N\<close> that the
  model returns.
\<close>

theorem lookups_succeed:
  assumes "argsort_ok argsort (centroid_elevations model scaler)"
  shows "\<exists>df rm cm.
           get_cluster_info argsort model scaler = Inr (df, rm, cm) \<and>
           set (map fst rm) = {0..<length (cluster_centers model)} \<and>
           set (map fst cm) = {0..<length (cluster_centers model)} \<and>
           (\<forall>k<length (cluster_centers model).
              (\<exists>t. dict_getitem rm k = Inr t) \<and> (\<exists>c. dict_getitem cm k = Inr c)) \<and>
           (\<forall>x v k. transform scaler x = Inr v \<and> predict model v = Inr k \<and>
                k < length (cluster_centers model) \<longrightarrow>
              (\<exists>r. classify model scaler rm cm x = Inr r))"
proof -
  let ?idx = "argsort (centroid_elevations model scaler)"
  let ?n = "length (cluster_centers model)"
  let ?rm = "map (\<lambda>p. (?idx ! p, risk_label p)) [0..<?n]"
  let ?cm = "map (\<lambda>p. (?idx ! p, risk_color p)) [0..<?n]"
  note D = argsort_okD [OF assms]
  have n: "length ?idx = ?n"
    using D(1) by (simp add: length_centroid_elevations)
  have kr: "map fst ?rm = ?idx" using keys_positions [of ?idx risk_label] n by simp
  have kc: "map fst ?cm = ?idx" using keys_positions [of ?idx risk_color] n by simp
  have s: "set ?idx = {0..<?n}" using D(4) by (simp add: length_centroid_elevations)
  have look: "(\<exists>t. dict_getitem ?rm k = Inr t) \<and> (\<exists>c. dict_getitem ?cm k = Inr c)" if "k < ?n" for k
  proof -
    from that s have "k \<in> set ?idx" by simp
    then obtain p where p: "p < length ?idx" "?idx ! p = k"
      by (auto simp: in_set_conv_nth)
    show ?thesis
      using dict_getitem_positions [OF D(2) p(1), of risk_label]
        dict_getitem_positions [OF D(2) p(1), of risk_color] p(2) n by auto
  qed
  have cl: "\<exists>r. classify model scaler ?rm ?cm x = Inr r"
    if "transform scaler x = Inr v" "predict model v = Inr k" "k < ?n" for x v k
    using look [OF that(3)] that(1,2) by (auto simp: classify_def)
  have "set (map fst ?rm) = {0..<?n}" unfolding kr by (rule s)
  moreover have "set (map fst ?cm) = {0..<?n}" unfolding kc by (rule s)
  ultimately show ?thesis
    using get_cluster_info_eq [OF assms] look cl by blast
qed

theorem lookups_succeed_witness:
  "argsort_ok stable_argsort (centroid_elevations scenario_model scenario_scaler) \<and>
   transform scenario_scaler (Finite 400, Finite 1) = Inr (Finite 400, Finite 1) \<and>
   predict scenario_model (Finite 400, Finite 1) = Inr 1 \<and>
   (1::nat) < length (cluster_centers scenario_model) \<and>
   (\<exists>df rm cm.
      get_cluster_info stable_argsort scenario_model scenario_scaler = Inr (df, rm, cm) \<and>
      set (map fst rm) = {0..<3} \<and> set (map fst cm) = {0..<3} \<and>
      (\<exists>r. classify scenario_model scenario_scaler rm cm (Finite 400, Finite 1) = Inr r))"
proof -
  have n: "length (cluster_centers scenario_model) = 3"
    by (simp add: scenario_model_def)
  have t: "transform scenario_scaler (Finite 400, Finite 1) = Inr (Finite 400, Finite 1)"
    by (simp add: scenario_scaler_def)
  have p: "predict scenario_model (Finite 400, Finite 1) = Inr 1"
    by (simp add: scenario_model_def)
  have k: "(1::nat) < 3" by simp
  show ?thesis
    using lookups_succeed [OF stable_argsort_ok, of scenario_model scenario_scaler]
      stable_argsort_ok t p k
    unfolding n by blast
qed

text \<open>
  Claim C6, as the code has it. The function is deterministic: its result is determined
  by the list of centers (and the library's sort). Centers get their ranks in the order
  in which the sort returns their rows. The call asks for no stable sort and passes no
  second key, so a tie in elevation goes to the lower cluster id exactly where the sort
  returns the tied rows in their original order: then of two centers \<open>a < b\<close> at the same
  elevation \<open>a\<close> gets the lower rank, and when all elevations are equal the \<open>i\<close>-th
  entry of the mapping is cluster \<open>i\<close> with the category of rank \<open>i\<close>. The case of all
  elevations equal also holds for every sort that only exchanges rows strictly out of
  order, stable or not: such a sort finds nothing to exchange.
\<close>

theorem ties_follow_the_sort:
  fixes model :: "'v kmeans" and scaler :: "'v scaler"
  assumes "argsort_ok argsort (centroid_elevations model scaler)"
  shows "\<exists>df rm cm.
           get_cluster_info argsort model scaler = Inr (df, rm, cm) \<and>
           (\<forall>(model' :: 'w kmeans) (scaler' :: 'w scaler).
              map (inverse_transform scaler') (cluster_centers model')
                = map (inverse_transform scaler) (cluster_centers model) \<longrightarrow>
              get_cluster_info argsort model' scaler' = Inr (df, rm, cm)) \<and>
           (\<forall>p q. p < q \<and> q < length (cluster_centers model) \<longrightarrow>
              (\<exists>lp lq.
                 dict_getitem rm (argsort (centroid_elevations model scaler) ! p) = Inr lp \<and>
                 dict_getitem rm (argsort (centroid_elevations model scaler) ! q) = Inr lq \<and>
                 rank_of lp < rank_of lq)) \<and>
           (keeps_ties argsort (centroid_elevations model scaler) \<longrightarrow>
              (\<forall>a b. a < b \<and> b < length (cluster_centers model) \<and>
                   centroid_elevations model scaler ! a = centroid_elevations model scaler ! b \<longrightarrow>
                 (\<exists>la lb. dict_getitem rm a = Inr la \<and> dict_getitem rm b = Inr lb \<and>
                    rank_of la < rank_of lb)) \<and>
              ((\<forall>e\<in>set (centroid_elevations model scaler).
                   e = centroid_elevations model scaler ! 0) \<longrightarrow>
                 map fst rm = [0..<length (cluster_centers model)] \<and>
                 map (\<lambda>kv. rank_of (snd kv)) rm = [0..<length (cluster_centers model)])) \<and>
           (by_exchanges (centroid_elevations model scaler)
              (argsort (centroid_elevations model scaler)) \<and>
            (\<forall>e\<in>set (centroid_elevations model scaler).
                e = centroid_elevations model scaler ! 0) \<longrightarrow>
              map fst rm = [0..<length (cluster_centers model)] \<and>
              map (\<lambda>kv. rank_of (snd kv)) rm = [0..<length (cluster_centers model)])"
proof -
  let ?ks = "centroid_elevations model scaler"
  let ?idx = "argsort ?ks"
  let ?n = "length (cluster_centers model)"
  let ?df = "DataFrame (map (inverse_transform scaler) (cluster_centers model))"
  let ?rm = "map (\<lambda>q. (?idx ! q, risk_label q)) [0..<?n]"
  let ?cm = "map (\<lambda>q. (?idx ! q, risk_color q)) [0..<?n]"
  note ok = assms
  note D = argsort_okD [OF ok]
  have n: "length ?idx = ?n" "length ?ks = ?n"
    using D(1) by (simp_all add: length_centroid_elevations)
  have res: "get_cluster_info argsort model scaler = Inr (?df, ?rm, ?cm)"
    by (rule get_cluster_info_eq [OF ok])
  have det: "get_cluster_info argsort model' scaler' = Inr (?df, ?rm, ?cm)"
    if "map (inverse_transform scaler') (cluster_centers model')
          = map (inverse_transform scaler) (cluster_centers model)"
    for model' :: "'w kmeans" and scaler' :: "'w scaler"
    using get_cluster_info_cong [OF that, of argsort] res by simp
  have at: "dict_getitem ?rm (?idx ! p) = Inr (risk_label p)" if "p < ?n" for p
    using dict_getitem_positions [OF D(2), of p risk_label] that n by simp
  have pos: "\<exists>lp lq. dict_getitem ?rm (?idx ! p) = Inr lp \<and> dict_getitem ?rm (?idx ! q) = Inr lq \<and>
      rank_of lp < rank_of lq" if "p < q" "q < ?n" for p q
  proof -
    have "p < ?n" using that by simp
    then show ?thesis
      using at [of p] at [of q] that by (simp add: rank_of_risk_label)
  qed
  have tie: "\<exists>la lb. dict_getitem ?rm a = Inr la \<and> dict_getitem ?rm b = Inr lb \<and> rank_of la < rank_of lb"
    if kt: "keeps_ties argsort ?ks" and "a < b" "b < ?n" "?ks ! a = ?ks ! b" for a b
  proof -
    from kept_ties_positions [OF ok kt that(2) _ that(4)] that(3) n
    obtain pa pb where p: "pa < pb" "pb < ?n" "?idx ! pa = a" "?idx ! pb = b"
      by auto
    from pos [OF p(1,2)] show ?thesis unfolding p(3,4) .
  qed
  have ident: "map fst ?rm = [0..<?n] \<and> map (\<lambda>kv. rank_of (snd kv)) ?rm = [0..<?n]"
    if "?idx = [0..<?n]"
  proof
    have "map fst ?rm = ?idx"
      using keys_positions [of ?idx risk_label] n by simp
    with that show "map fst ?rm = [0..<?n]" by simp
    show "map (\<lambda>kv. rank_of (snd kv)) ?rm = [0..<?n]"
      by (rule nth_equalityI) (simp_all add: rank_of_risk_label)
  qed
  have all: "map fst ?rm = [0..<?n] \<and> map (\<lambda>kv. rank_of (snd kv)) ?rm = [0..<?n]"
    if kt: "keeps_ties argsort ?ks" and eq: "\<forall>e\<in>set ?ks. e = ?ks ! 0"
    using kept_ties_all_equal [OF ok kt eq] n ident by simp
  have exch: "map fst ?rm = [0..<?n] \<and> map (\<lambda>kv. rank_of (snd kv)) ?rm = [0..<?n]"
    if "by_exchanges ?ks ?idx \<and> (\<forall>e\<in>set ?ks. e = ?ks ! 0)"
  proof -
    from that have "?idx = [0..<length ?ks]"
      using by_exchanges_all_equal [of ?ks "?ks ! 0" ?idx] by blast
    with n ident show ?thesis by simp
  qed
  show ?thesis
  proof (rule exI [of _ ?df], rule exI [of _ ?rm], rule exI [of _ ?cm], intro conjI allI impI)
    show "get_cluster_info argsort model scaler = Inr (?df, ?rm, ?cm)" by (rule res)
  next
    fix model' :: "'w kmeans" and scaler' :: "'w scaler"
    assume "map (inverse_transform scaler') (cluster_centers model')
              = map (inverse_transform scaler) (cluster_centers model)"
    then show "get_cluster_info argsort model' scaler' = Inr (?df, ?rm, ?cm)" by (rule det)
  next
    fix p q assume "p < q \<and> q < ?n"
    then show "\<exists>lp lq. dict_getitem ?rm (?idx ! p) = Inr lp \<and>
        dict_getitem ?rm (?idx ! q) = Inr lq \<and> rank_of lp < rank_of lq"
      using pos by blast
  next
    fix a b assume "keeps_ties argsort ?ks" and "a < b \<and> b < ?n \<and> ?ks ! a = ?ks ! b"
    then show "\<exists>la lb. dict_getitem ?rm a = Inr la \<and> dict_getitem ?rm b = Inr lb \<and>
        rank_of la < rank_of lb"
      using tie by blast
  next
    assume "keeps_ties argsort ?ks" and "\<forall>e\<in>set ?ks. e = ?ks ! 0"
    then show "map fst ?rm = [0..<?n]" using all by blast
  next
    assume "keeps_ties argsort ?ks" and "\<forall>e\<in>set ?ks. e = ?ks ! 0"
    then show "map (\<lambda>kv. rank_of (snd kv)) ?rm = [0..<?n]" using all by blast
  next
    assume "by_exchanges ?ks ?idx \<and> (\<forall>e\<in>set ?ks. e = ?ks ! 0)"
    then show "map fst ?rm = [0..<?n]" using exch by blast
  next
    assume "by_exchanges ?ks ?idx \<and> (\<forall>e\<in>set ?ks. e = ?ks ! 0)"
    then show "map (\<lambda>kv. rank_of (snd kv)) ?rm = [0..<?n]" using exch by blast
  qed
qed

theorem ties_follow_the_sort_witness:
  "argsort_ok stable_argsort (centroid_elevations tied_model scenario_scaler) \<and>
   centroid_elevations tied_model scenario_scaler = [Finite 2, Finite 2, Finite 0, Finite 0] \<and>
   (\<exists>df rm cm la lb.
      get_cluster_info stable_argsort tied_model scenario_scaler = Inr (df, rm, cm) \<and>
      dict_getitem rm 2 = Inr la \<and> dict_getitem rm 3 = Inr lb \<and> rank_of la < rank_of lb) \<and>
   argsort_ok mirror_argsort (centroid_elevations level_model scenario_scaler) \<and>
   centroid_elevations level_model scenario_scaler = [Finite 5, Finite 5, Finite 5] \<and>
   (\<exists>df rm cm.
      get_cluster_info mirror_argsort level_model scenario_scaler = Inr (df, rm, cm) \<and>
      map fst rm = [0, 1, 2])"
proof -
  let ?kt = "centroid_elevations tied_model scenario_scaler"
  let ?kl = "centroid_elevations level_model scenario_scaler"
  have nt: "length (cluster_centers tied_model) = 4" by (simp add: tied_model_def)
  have nl: "[0..<length (cluster_centers level_model)] = [0, 1, 2]"
    by (simp add: level_model_def upt_rec)
  have okt: "argsort_ok stable_argsort ?kt" by (rule stable_argsort_ok)
  have ktt: "keeps_ties stable_argsort ?kt" by (rule stable_argsort_keeps_ties)
  have okl: "argsort_ok mirror_argsort ?kl"
    unfolding level_elevations by (rule level_mirror_ok)
  have exl: "by_exchanges ?kl (mirror_argsort ?kl)"
    unfolding level_elevations by (rule level_mirror_by_exchanges)
  have eql: "\<forall>e\<in>set ?kl. e = ?kl ! 0"
    by (simp add: level_elevations)
  have tie: "(2::nat) < 3 \<and> 3 < length (cluster_centers tied_model) \<and> ?kt ! 2 = ?kt ! 3"
    by (simp add: nt tied_elevations)
  have one: "\<exists>df rm cm la lb.
      get_cluster_info stable_argsort tied_model scenario_scaler = Inr (df, rm, cm) \<and>
      dict_getitem rm 2 = Inr la \<and> dict_getitem rm 3 = Inr lb \<and> rank_of la < rank_of lb"
  proof -
    from ties_follow_the_sort [OF okt]
    obtain df rm cm where
      r: "get_cluster_info stable_argsort tied_model scenario_scaler = Inr (df, rm, cm)"
      and t: "keeps_ties stable_argsort ?kt \<longrightarrow>
         (\<forall>a b. a < b \<and> b < length (cluster_centers tied_model) \<and> ?kt ! a = ?kt ! b \<longrightarrow>
            (\<exists>la lb. dict_getitem rm a = Inr la \<and> dict_getitem rm b = Inr lb \<and>
               rank_of la < rank_of lb)) \<and>
         ((\<forall>e\<in>set ?kt. e = ?kt ! 0) \<longrightarrow>
            map fst rm = [0..<length (cluster_centers tied_model)] \<and>
            map (\<lambda>kv. rank_of (snd kv)) rm = [0..<length (cluster_centers tied_model)])"
      by (elim exE conjE)
    from t ktt have c: "(\<forall>a b. a < b \<and> b < length (cluster_centers tied_model) \<and> ?kt ! a = ?kt ! b \<longrightarrow>
            (\<exists>la lb. dict_getitem rm a = Inr la \<and> dict_getitem rm b = Inr lb \<and>
               rank_of la < rank_of lb)) \<and>
         ((\<forall>e\<in>set ?kt. e = ?kt ! 0) \<longrightarrow>
            map fst rm = [0..<length (cluster_centers tied_model)] \<and>
            map (\<lambda>kv. rank_of (snd kv)) rm = [0..<length (cluster_centers tied_model)])"
      by (rule mp)
    note ties = conjunct1 [OF c, rule_format]
    from ties [OF tie] obtain la lb where "dict_getitem rm 2 = Inr la" "dict_getitem rm 3 = Inr lb"
      "rank_of la < rank_of lb"
      by (elim exE conjE)
    with r show ?thesis by (intro exI conjI)
  qed
  have two: "\<exists>df rm cm.
      get_cluster_info mirror_argsort level_model scenario_scaler = Inr (df, rm, cm) \<and>
      map fst rm = [0, 1, 2]"
  proof -
    from ties_follow_the_sort [OF okl]
    obtain df rm cm where
      r: "get_cluster_info mirror_argsort level_model scenario_scaler = Inr (df, rm, cm)"
      and t: "by_exchanges ?kl (mirror_argsort ?kl) \<and> (\<forall>e\<in>set ?kl. e = ?kl ! 0) \<longrightarrow>
         map fst rm = [0..<length (cluster_centers level_model)] \<and>
         map (\<lambda>kv. rank_of (snd kv)) rm = [0..<length (cluster_centers level_model)]"
      by (elim exE conjE)
    from exl eql have "by_exchanges ?kl (mirror_argsort ?kl) \<and> (\<forall>e\<in>set ?kl. e = ?kl ! 0)"
      by (rule conjI)
    with t have "map fst rm = [0..<length (cluster_centers level_model)] \<and>
        map (\<lambda>kv. rank_of (snd kv)) rm = [0..<length (cluster_centers level_model)]"
      by (rule mp)
    then have "map fst rm = [0..<length (cluster_centers level_model)]"
      by (rule conjunct1)
    then have "map fst rm = [0, 1, 2]" unfolding nl .
    with r show ?thesis by (intro exI conjI)
  qed
  from okt tied_elevations one okl level_elevations two show ?thesis
    by (intro conjI)
qed

text \<open>
  Claim C6 as the specification words it (a tie always goes to the lower cluster id)
  fails for elevations 2, 2, 0, 0 when the sort returns the rows 3, 2, 1, 0, an
  ascending order that the library's promise allows and that two exchanges of rows
  strictly out of order produce: clusters 2 and 3 tie at the lowest
  elevation and cluster 3 gets the most severe category; clusters 0 and 1 tie and
  cluster 1 gets the lower rank.
\<close>

theorem ties_not_by_cluster_id:
  "centroid_elevations tied_model scenario_scaler = [Finite 2, Finite 2, Finite 0, Finite 0] \<and>
   mirror_argsort [Finite 2, Finite 2, Finite 0, Finite 0] = [3, 2, 1, 0] \<and>
   argsort_ok mirror_argsort [Finite 2, Finite 2, Finite 0, Finite 0] \<and>
   by_exchanges [Finite 2, Finite 2, Finite 0, Finite 0] [3, 2, 1, 0] \<and>
   get_cluster_info mirror_argsort tied_model scenario_scaler =
     Inr ([\<lparr>Curah_Hujan = Finite 100, Elevasi = Finite 2, Cluster_Label = 0\<rparr>,
           \<lparr>Curah_Hujan = Finite 300, Elevasi = Finite 2, Cluster_Label = 1\<rparr>,
           \<lparr>Curah_Hujan = Finite 200, Elevasi = Finite 0, Cluster_Label = 2\<rparr>,
           \<lparr>Curah_Hujan = Finite 250, Elevasi = Finite 0, Cluster_Label = 3\<rparr>],
          [(3, ''Sangat Rawan (Bahaya)''), (2, ''Waspada (Siaga)''), (1, ''Aman''),
           (0, ''Level 3'')],
          [(3, ''#FF4B4B''), (2, ''#FFA500''), (1, ''#28A745''), (0, ''#808080'')])"
proof -
  have ok: "argsort_ok mirror_argsort (centroid_elevations tied_model scenario_scaler)"
    unfolding tied_elevations by (rule tied_mirror_ok)
  have df: "DataFrame (map (inverse_transform scenario_scaler) (cluster_centers tied_model)) =
      [\<lparr>Curah_Hujan = Finite 100, Elevasi = Finite 2, Cluster_Label = 0\<rparr>,
       \<lparr>Curah_Hujan = Finite 300, Elevasi = Finite 2, Cluster_Label = 1\<rparr>,
       \<lparr>Curah_Hujan = Finite 200, Elevasi = Finite 0, Cluster_Label = 2\<rparr>,
       \<lparr>Curah_Hujan = Finite 250, Elevasi = Finite 0, Cluster_Label = 3\<rparr>]"
    by (simp add: DataFrame_def tied_model_def scenario_scaler_def enumerate_eq_zip upt_rec)
  have n: "[0..<length (cluster_centers tied_model)] = [0, 1, 2, 3]"
    by (simp add: tied_model_def upt_rec)
  have "get_cluster_info mirror_argsort tied_model scenario_scaler =
     Inr ([\<lparr>Curah_Hujan = Finite 100, Elevasi = Finite 2, Cluster_Label = 0\<rparr>,
           \<lparr>Curah_Hujan = Finite 300, Elevasi = Finite 2, Cluster_Label = 1\<rparr>,
           \<lparr>Curah_Hujan = Finite 200, Elevasi = Finite 0, Cluster_Label = 2\<rparr>,
           \<lparr>Curah_Hujan = Finite 250, Elevasi = Finite 0, Cluster_Label = 3\<rparr>],
          [(3, ''Sangat Rawan (Bahaya)''), (2, ''Waspada (Siaga)''), (1, ''Aman''),
           (0, ''Level 3'')],
          [(3, ''#FF4B4B''), (2, ''#FFA500''), (1, ''#28A745''), (0, ''#808080'')])"
    unfolding get_cluster_info_eq [OF ok] df n tied_elevations tied_mirror_indexer
    by (simp add: risk_label_def risk_color_def labels_def color_codes_def str_nat_3)
  with tied_elevations tied_mirror_indexer tied_mirror_ok tied_mirror_by_exchanges
  show ?thesis by (intro conjI)
qed




text \<open>
  Claim C3 fails on the code. When the model files are missing, the first tab is
  skipped, and the second tab reads \<open>df_centers\<close>, a name that was never bound: the run
  ends in a NameError.
\<close>

theorem app_without_model:
  "load_models None = (None, None) \<and>
   tab1 None None None x = Inr None \<and>
   tab2 None = Inl (NameError ''df_centers'') \<and>
   app argsort None x = Inl (NameError ''df_centers'')"
  by (simp add: load_models_def tab1_def tab2_def app_def)

end
